theory Spec2Isabelle
  imports Main "HOL-Library.Word"
begin

section \<open>Strings as the source uses them\<close>

text \<open>
  A JavaScript string is modelled as a \<open>string\<close> whose characters are the code units
  0..255. Every regular expression and string method of the source that the model needs
  is written out as a function on such strings.
\<close>

abbreviation nl :: char where
  "nl \<equiv> CHR 0x0A"

abbreviation bslash :: char where
  "bslash \<equiv> CHR 0x5C"

abbreviation btick :: char where
  "btick \<equiv> CHR 0x60"

text \<open>\<open>s.endsWith(suf)\<close>.\<close>

definition endsWith :: "string \<Rightarrow> string \<Rightarrow> bool" where
  "endsWith s suf = (length suf \<le> length s \<and> drop (length s - length suf) s = suf)"

text \<open>
  The characters that \<open>\s\<close>, \<open>trim\<close> and \<open>trimEnd\<close> treat as white space, among the
  code units 0..255: tab, line feed, vertical tab, form feed, carriage return, space and
  the no-break space.
\<close>

definition isSpace :: "char \<Rightarrow> bool" where
  "isSpace c = (c = CHR 0x09 \<or> c = nl \<or> c = CHR 0x0B \<or> c = CHR 0x0C \<or> c = CHR 0x0D
     \<or> c = CHR 0x20 \<or> c = CHR 0xA0)"

definition trimEnd :: "string \<Rightarrow> string" where
  "trimEnd s = rev (dropWhile isSpace (rev s))"

definition trimStart :: "string \<Rightarrow> string" where
  "trimStart s = dropWhile isSpace s"

definition trim :: "string \<Rightarrow> string" where
  "trim s = trimStart (trimEnd s)"

text \<open>\<open>s.split('\n')\<close>: never empty, \<open>''.split('\n')\<close> is \<open>['']\<close>.\<close>

fun splitLines :: "string \<Rightarrow> string list" where
  "splitLines [] = [[]]"
| "splitLines (c # cs) =
     (if c = nl then [] # splitLines cs
      else (c # hd (splitLines cs)) # tl (splitLines cs))"

text \<open>\<open>xs.join(sep)\<close>.\<close>

fun join :: "string \<Rightarrow> string list \<Rightarrow> string" where
  "join sep [] = []"
| "join sep [x] = x"
| "join sep (x # y # ys) = x @ sep @ join sep (y # ys)"

text \<open>The number of newlines a text ends with.\<close>

definition trailingNewlines :: "string \<Rightarrow> nat" where
  "trailingNewlines s = length (takeWhile (\<lambda>c. c = nl) (rev s))"

section \<open>The escaping layer\<close>

text \<open>\<open>value.replace(/c/g, r)\<close> for a single character \<open>c\<close>.\<close>

definition replaceChar :: "char \<Rightarrow> string \<Rightarrow> string \<Rightarrow> string" where
  "replaceChar c r s = concat (map (\<lambda>x. if x = c then r else [x]) s)"

definition escapeXmlText :: "string \<Rightarrow> string" where
  "escapeXmlText v =
     replaceChar (CHR ''>'') ''&gt;'' (replaceChar (CHR ''<'') ''&lt;''
       (replaceChar (CHR ''&'') ''&amp;'' v))"

definition isDigit :: "char \<Rightarrow> bool" where
  "isDigit c = (48 \<le> (of_char c :: nat) \<and> (of_char c :: nat) \<le> 57)"

definition isHash :: "char \<Rightarrow> bool" where
  "isHash c = (c = CHR ''#'')"

definition isBullet :: "char \<Rightarrow> bool" where
  "isBullet c = (c = CHR ''-'' \<or> c = CHR ''+'' \<or> c = CHR ''*'')"

text \<open>
  \<open>escapeMarkdownLineStart\<close>. Each test anchors at the start of the line and skips the
  leading white space \<open>ws\<close> greedily; what follows it is \<open>rest\<close>.
  \<^item> \<open>/^\s*#{1,6}\s/\<close>: \<open>rest\<close> begins with one to six hashes and then a white-space
    character; the replacement puts a backslash before the hashes.
  \<^item> \<open>/^\s*>/\<close>: \<open>rest\<close> begins with \<open>>\<close>; a backslash goes before it.
  \<^item> \<open>/^\s*([-+*])\s/\<close>: a bullet and a white-space character; a backslash goes before
    the bullet.
  \<^item> \<open>/^\s*\d+\.\s/\<close>: digits, a dot and a white-space character; a backslash goes
    before the dot.
\<close>

definition escapeMarkdownLineStart :: "string \<Rightarrow> string" where
  "escapeMarkdownLineStart line =
     (let ws = takeWhile isSpace line;
          rest = dropWhile isSpace line;
          hashes = takeWhile isHash rest;
          afterHashes = dropWhile isHash rest;
          digits = takeWhile isDigit rest;
          afterDigits = dropWhile isDigit rest
      in
        if 1 \<le> length hashes \<and> length hashes \<le> 6 \<and> afterHashes \<noteq> []
           \<and> isSpace (hd afterHashes)
        then ws @ [bslash] @ rest
        else if rest \<noteq> [] \<and> hd rest = CHR ''>''
        then ws @ [bslash] @ rest
        else if 2 \<le> length rest \<and> isBullet (hd rest) \<and> isSpace (hd (tl rest))
        then ws @ [bslash] @ rest
        else if digits \<noteq> [] \<and> 2 \<le> length afterDigits \<and> hd afterDigits = CHR ''.''
           \<and> isSpace (hd (tl afterDigits))
        then ws @ digits @ [bslash] @ afterDigits
        else line)"

text \<open>The class \<open>[\\`*_~()|!]\<close> of the first punctuation pass.\<close>

definition isMarkdownPunct :: "char \<Rightarrow> bool" where
  "isMarkdownPunct c = (c = bslash \<or> c = btick \<or> c = CHR ''*'' \<or> c = CHR ''_''
     \<or> c = CHR ''~'' \<or> c = CHR ''('' \<or> c = CHR '')'' \<or> c = CHR ''|'' \<or> c = CHR ''!'')"

definition escapeMarkdownText :: "string \<Rightarrow> string" where
  "escapeMarkdownText v =
     (let escaped =
        replaceChar (CHR '']'') [bslash, CHR '']'']
          (replaceChar (CHR ''['') [bslash, CHR ''['']
            (concat (map (\<lambda>c. if isMarkdownPunct c then [bslash, c] else [c])
               (escapeXmlText v))))
      in join [nl] (map escapeMarkdownLineStart (splitLines escaped)))"

text \<open>
  \<open>wrapInlineCode\<close>: the fence is one backtick longer than the longest run of backticks
  in the value (\<open>value.match(/`+/g)\<close> lists the maximal runs).
\<close>

fun longestRun :: "nat \<Rightarrow> nat \<Rightarrow> string \<Rightarrow> nat" where
  "longestRun cur best [] = max cur best"
| "longestRun cur best (c # cs) =
     (if c = btick then longestRun (Suc cur) best cs
      else longestRun 0 (max cur best) cs)"

definition wrapInlineCode :: "string \<Rightarrow> string" where
  "wrapInlineCode v =
     (let fenceSize = longestRun 0 0 v + 1;
          fence = replicate fenceSize btick;
          needsPadding = (v \<noteq> [] \<and> (isSpace (hd v) \<or> isSpace (last v)));
          content = (if needsPadding then '' '' @ v @ '' '' else v)
      in fence @ content @ fence)"

section \<open>Link destinations\<close>


























section \<open>The writer and its padding rule\<close>

text \<open>
  \<open>ProseWriter\<close>: the fragments appended so far, the one-shot flag set by
  \<open>nextLine()\<close>, and the safe-mode flag fixed by the constructor.
\<close>

record writer =
  parts :: "string list"
  skipNextPadding :: bool
  safeMode :: bool

text \<open>\<open>new ProseWriter(content, {safe})\<close>; \<open>None\<close> is the absent seed text.\<close>

definition newWriter :: "string option \<Rightarrow> bool \<Rightarrow> writer" where
  "newWriter content safe =
     \<lparr> parts = (case content of
                  None \<Rightarrow> []
                | Some c \<Rightarrow> [if endsWith c [nl] then c else c @ [nl]]),
       skipNextPadding = False,
       safeMode = safe \<rparr>"

definition createChildWriter :: "writer \<Rightarrow> writer" where
  "createChildWriter w = newWriter None (safeMode w)"

definition toString :: "writer \<Rightarrow> string" where
  "toString w = concat (parts w)"

text \<open>
  The getter \<open>padding\<close> reads the state and may clear the flag, so it returns the prefix
  together with the writer after the read.
\<close>

definition padding :: "writer \<Rightarrow> string \<times> writer" where
  "padding w =
     (if skipNextPadding w \<or> parts w = [] then ([], w\<lparr>skipNextPadding := False\<rparr>)
      else let lastPart = last (parts w) in
        if endsWith lastPart [nl, nl] then ([], w)
        else if endsWith lastPart [nl] then ([nl], w)
        else ([nl, nl], w))"

text \<open>\<open>this.parts.push(this.padding + body)\<close>, the last statement of every appender.\<close>

definition pushPadded :: "string \<Rightarrow> writer \<Rightarrow> writer" where
  "pushPadded body w =
     (case padding w of (p, w') \<Rightarrow> w'\<lparr>parts := parts w' @ [p @ body]\<rparr>)"

definition nextLine :: "writer \<Rightarrow> writer" where
  "nextLine w = w\<lparr>skipNextPadding := True\<rparr>"

definition raw :: "string \<Rightarrow> writer \<Rightarrow> writer" where
  "raw content w = w\<lparr>parts := parts w @ [content]\<rparr>"

text \<open>\<open>append(writer)\<close>: the padding is read only when the other text is not empty.\<close>

definition append_writer :: "writer \<Rightarrow> writer \<Rightarrow> writer" where
  "append_writer other w =
     (let content = toString other in
      if length content > 0 then pushPadded content w else w)"

section \<open>Content values and the inline formatters\<close>

text \<open>
  A value handed to a formatter: a plain string (a number or boolean counts as the string
  \<open>String(c)\<close> gives), a \<open>SafeString\<close> produced by a safe formatter, or another writer.
\<close>

datatype contentValue = Plain string | SafeString string | Nested writer

datatype trimMode = TrimNone | TrimEnd | TrimBoth

text \<open>\<open>toContentString\<close> returns the text and whether it is trusted.\<close>

fun toContentString :: "contentValue \<Rightarrow> trimMode \<Rightarrow> string \<times> bool" where
  "toContentString (SafeString v) t = (v, True)"
| "toContentString (Nested wr) TrimEnd = (trimEnd (toString wr), True)"
| "toContentString (Nested wr) TrimBoth = (trim (toString wr), True)"
| "toContentString (Nested wr) TrimNone = (toString wr, True)"
| "toContentString (Plain s) t = (s, False)"

text \<open>What string coercion (\<open>String(c)\<close>, a template literal, \<open>+\<close>) gives.\<close>

fun stringOf :: "contentValue \<Rightarrow> string" where
  "stringOf (Plain s) = s"
| "stringOf (SafeString v) = v"
| "stringOf (Nested wr) = toString wr"

definition toSafeInlineText :: "contentValue \<Rightarrow> string" where
  "toSafeInlineText content =
     (case toContentString content TrimBoth of
        (v, isTrusted) \<Rightarrow> if isTrusted then v else escapeMarkdownText v)"

definition safeBold :: "contentValue \<Rightarrow> contentValue" where
  "safeBold content = SafeString (''**'' @ toSafeInlineText content @ ''**'')"

definition safeItalic :: "contentValue \<Rightarrow> contentValue" where
  "safeItalic content = SafeString (''*'' @ toSafeInlineText content @ ''*'')"

definition safeStrike :: "contentValue \<Rightarrow> contentValue" where
  "safeStrike content = SafeString (''~~'' @ toSafeInlineText content @ ''~~'')"

definition safeInlineCode :: "contentValue \<Rightarrow> contentValue" where
  "safeInlineCode content =
     (case toContentString content TrimBoth of
        (v, isTrusted) \<Rightarrow> SafeString (wrapInlineCode v))"



text \<open>
  The plain formatters: \<open>content instanceof ProseWriter ? content.toString().trim() :
  content\<close> inside a template literal.
\<close>

fun inlineText :: "contentValue \<Rightarrow> string" where
  "inlineText (Nested wr) = trim (toString wr)"
| "inlineText c = stringOf c"

definition bold :: "contentValue \<Rightarrow> string" where
  "bold content = ''**'' @ inlineText content @ ''**''"

definition italic :: "contentValue \<Rightarrow> string" where
  "italic content = ''*'' @ inlineText content @ ''*''"

definition code :: "contentValue \<Rightarrow> string" where
  "code content = [btick] @ inlineText content @ [btick]"

definition strike :: "contentValue \<Rightarrow> string" where
  "strike content = ''~~'' @ inlineText content @ ''~~''"

definition link :: "contentValue \<Rightarrow> string \<Rightarrow> string" where
  "link text url = ''['' @ inlineText text @ '']('' @ url @ '')''"

definition image :: "contentValue \<Rightarrow> string \<Rightarrow> string" where
  "image alt url = ''!['' @ inlineText alt @ '']('' @ url @ '')''"

section \<open>Appending lines\<close>

text \<open>
  In safe mode every appender escapes a value unless \<open>toContentString\<close> reports it
  trusted. \<open>write_content\<close> is the method \<open>write(...content)\<close>.
\<close>

definition escapeUntrusted :: "bool \<Rightarrow> string \<times> bool \<Rightarrow> string" where
  "escapeUntrusted safe r =
     (case r of (v, isTrusted) \<Rightarrow> if safe \<and> \<not> isTrusted then escapeMarkdownText v else v)"

definition writeJoined :: "bool \<Rightarrow> contentValue list \<Rightarrow> string" where
  "writeJoined safe content =
     join '' '' (map (\<lambda>c. escapeUntrusted safe (toContentString c TrimEnd)) content)"

definition write_content :: "contentValue list \<Rightarrow> writer \<Rightarrow> writer" where
  "write_content content w =
     (let joined = writeJoined (safeMode w) content
      in if parts w = [] \<and> length joined = 0 then w
         else pushPadded (joined @ [nl]) w)"

text \<open>The chainable inline appenders \<open>bold\<close>, \<open>italic\<close>, \<open>strike\<close> and \<open>code\<close>.\<close>

definition appendBold :: "contentValue \<Rightarrow> writer \<Rightarrow> writer" where
  "appendBold content w =
     (let formatted = (if safeMode w then stringOf (safeBold content) else bold content)
      in pushPadded (formatted @ [nl]) w)"

definition appendItalic :: "contentValue \<Rightarrow> writer \<Rightarrow> writer" where
  "appendItalic content w =
     (let formatted = (if safeMode w then stringOf (safeItalic content) else italic content)
      in pushPadded (formatted @ [nl]) w)"

definition appendStrike :: "contentValue \<Rightarrow> writer \<Rightarrow> writer" where
  "appendStrike content w =
     (let formatted = (if safeMode w then stringOf (safeStrike content) else strike content)
      in pushPadded (formatted @ [nl]) w)"

definition appendCode :: "contentValue \<Rightarrow> writer \<Rightarrow> writer" where
  "appendCode content w =
     (let formatted = (if safeMode w then stringOf (safeInlineCode content) else code content)
      in pushPadded (formatted @ [nl]) w)"

section \<open>Lists\<close>

text \<open>\<open>String(index)\<close> for the counter of an ordered list.\<close>

definition digitChar :: "nat \<Rightarrow> char" where
  "digitChar d = char_of (48 + d mod 10)"

fun showNat :: "nat \<Rightarrow> string" where
  "showNat n = (if n < 10 then [digitChar n] else showNat (n div 10) @ [digitChar (n mod 10)])"

declare showNat.simps [simp del]

text \<open>
  A nested writer among the items: \<open>item.toString().trimEnd().split('\n').map((line) =>
  `  ${line}`).join('\n')\<close>.
\<close>

definition indentLines :: "string \<Rightarrow> string" where
  "indentLines s = join [nl] (map (\<lambda>line. ''  '' @ line) (splitLines s))"

definition nestedItem :: "writer \<Rightarrow> string" where
  "nestedItem item = indentLines (trimEnd (toString item))"

definition commentBody :: "string \<Rightarrow> string" where
  "commentBody content = ''<!-- '' @ content @ '' -->'' @ [nl, nl]"

definition comment :: "string \<Rightarrow> writer \<Rightarrow> writer" where
  "comment content w = pushPadded (commentBody content) w"

text \<open>
  The callback of the builder form is modelled by the calls it makes on the
  \<open>ListBuilder\<close>, in order. A nested list call again takes items or a callback.
\<close>

datatype listCall =
    ItemCall "contentValue list"
  | TaskCall bool "contentValue list"
  | TodoCall "contentValue list"
  | DoneCall "contentValue list"
  | CommentCall string
  | UnorderedListCall listArgs
  | ListCall listArgs
  | OrderedListCall listArgs
and listArgs =
    Items "contentValue list"
  | Builder "listCall list"

text \<open>What \<open>getItems()\<close> holds: strings and writers.\<close>

datatype listItem = ItemText string | ItemWriter writer

text \<open>The flat form: a scalar item goes through \<open>toContentString\<close> and the safe-mode escape.\<close>

fun unorderedItem :: "bool \<Rightarrow> contentValue \<Rightarrow> string" where
  "unorderedItem safe (Nested wr) = nestedItem wr"
| "unorderedItem safe item = ''- '' @ escapeUntrusted safe (toContentString item TrimNone)"

text \<open>\<open>index++\<close> runs only in the branch of a scalar item.\<close>

fun orderedItems :: "bool \<Rightarrow> nat \<Rightarrow> contentValue list \<Rightarrow> string list" where
  "orderedItems safe index [] = []"
| "orderedItems safe index (Nested wr # items) = nestedItem wr # orderedItems safe index items"
| "orderedItems safe index (item # items) =
     (showNat index @ ''. '' @ escapeUntrusted safe (toContentString item TrimNone))
       # orderedItems safe (Suc index) items"

text \<open>The builder form: the collected strings are used as they are.\<close>

fun unorderedBuilderItem :: "listItem \<Rightarrow> string" where
  "unorderedBuilderItem (ItemWriter wr) = nestedItem wr"
| "unorderedBuilderItem (ItemText t) = ''- '' @ t"

fun orderedBuilderItems :: "nat \<Rightarrow> listItem list \<Rightarrow> string list" where
  "orderedBuilderItems index [] = []"
| "orderedBuilderItems index (ItemWriter wr # items) =
     nestedItem wr # orderedBuilderItems index items"
| "orderedBuilderItems index (ItemText t # items) =
     (showNat index @ ''. '' @ t) # orderedBuilderItems (Suc index) items"

text \<open>
  \<open>createListBuilder\<close> on the writer \<open>this\<close>, run on the calls of the callback:
  \<open>builderItem\<close> is the item one call pushes. The list methods of a sub-writer call
  \<open>createListBuilder\<close> again, so the three functions are mutually recursive.
\<close>

fun builderItem :: "writer \<Rightarrow> listCall \<Rightarrow> listItem"
  and unorderedListBody :: "writer \<Rightarrow> listArgs \<Rightarrow> string"
  and orderedListBody :: "writer \<Rightarrow> listArgs \<Rightarrow> string" where
  "builderItem this (ItemCall content) =
     ItemText (trimEnd (toString (write_content content (createChildWriter this))))"
| "builderItem this (TaskCall checked content) =
     ItemText ((if checked then ''[x] '' else ''[ ] '')
       @ trimEnd (toString (write_content content (createChildWriter this))))"
| "builderItem this (TodoCall content) =
     ItemText (''[ ] '' @ trimEnd (toString (write_content content (createChildWriter this))))"
| "builderItem this (DoneCall content) =
     ItemText (''[x] '' @ trimEnd (toString (write_content content (createChildWriter this))))"
| "builderItem this (CommentCall content) =
     ItemWriter (comment content (createChildWriter this))"
| "builderItem this (UnorderedListCall args) =
     ItemWriter (pushPadded (unorderedListBody (createChildWriter this) args)
       (createChildWriter this))"
| "builderItem this (ListCall args) =
     ItemWriter (pushPadded (unorderedListBody (createChildWriter this) args)
       (createChildWriter this))"
| "builderItem this (OrderedListCall args) =
     ItemWriter (pushPadded (orderedListBody (createChildWriter this) args)
       (createChildWriter this))"
| "unorderedListBody this (Builder calls) =
     join [nl] (map unorderedBuilderItem (map (builderItem this) calls)) @ [nl, nl]"
| "unorderedListBody this (Items items) =
     join [nl] (map (unorderedItem (safeMode this)) items) @ [nl, nl]"
| "orderedListBody this (Builder calls) =
     join [nl] (orderedBuilderItems 1 (map (builderItem this) calls)) @ [nl, nl]"
| "orderedListBody this (Items items) =
     join [nl] (orderedItems (safeMode this) 1 items) @ [nl, nl]"

definition unorderedList :: "listArgs \<Rightarrow> writer \<Rightarrow> writer" where
  "unorderedList args w = pushPadded (unorderedListBody w args) w"

definition list_block :: "listArgs \<Rightarrow> writer \<Rightarrow> writer" where
  "list_block args w = unorderedList args w"

definition orderedList :: "listArgs \<Rightarrow> writer \<Rightarrow> writer" where
  "orderedList args w = pushPadded (orderedListBody w args) w"

text \<open>
  \<open>tasks\<close>: an item of the flat form is a value or a pair \<open>[value, checked]\<close>; its text
  is what a child writer renders for \<open>write(value)\<close>, right-trimmed.
\<close>

datatype taskArg = TaskValue contentValue | TaskPair contentValue bool

datatype taskArgs = TaskItems "taskArg list" | TaskBuilder "listCall list"

fun taskItem :: "writer \<Rightarrow> taskArg \<Rightarrow> string" where
  "taskItem this (TaskPair content checked) =
     (if checked then ''[x] '' else ''[ ] '')
       @ trimEnd (toString (write_content [content] (createChildWriter this)))"
| "taskItem this (TaskValue arg) =
     ''[ ] '' @ trimEnd (toString (write_content [arg] (createChildWriter this)))"

fun tasksBody :: "writer \<Rightarrow> taskArgs \<Rightarrow> string" where
  "tasksBody this (TaskBuilder calls) =
     join [nl] (map unorderedBuilderItem (map (builderItem this) calls)) @ [nl, nl]"
| "tasksBody this (TaskItems args) =
     join [nl] (map (\<lambda>item. ''- '' @ item) (map (taskItem this) args)) @ [nl, nl]"



section \<open>Block formatters\<close>

text \<open>
  Content of \<open>callout\<close>, \<open>codeblock\<close> and \<open>tag\<close>: a value, or a callback that builds on the
  writer it is given.
\<close>

datatype bodyArg = Content contentValue | Build "writer \<Rightarrow> writer"

datatype calloutType = NOTE | TIP | IMPORTANT | WARNING | CAUTION








text \<open>
  \<open>codeblock\<close>: the callback is given \<open>new ProseWriter()\<close>; a literal is used as it is.
\<close>

definition codeblockBody :: "string \<Rightarrow> bodyArg \<Rightarrow> string" where
  "codeblockBody language content =
     (let code = (case content of
                    Build f \<Rightarrow> trim (toString (f (newWriter None False)))
                  | Content c \<Rightarrow> stringOf c)
      in [btick, btick, btick] @ language @ [nl] @ code @ [nl] @ [btick, btick, btick]
         @ [nl, nl])"

definition codeblock :: "string \<Rightarrow> bodyArg \<Rightarrow> writer \<Rightarrow> writer" where
  "codeblock language content w = pushPadded (codeblockBody language content) w"




text \<open>
  \<open>escapeMarkdownText(value)\<close> on an argument the source types as \<open>string\<close>: a safe
  formatter's result is typed \<open>string\<close> too, but it is a \<open>SafeString\<close> object without a
  \<open>replace\<close> method, so the call throws \<open>TypeError\<close>; a writer has none either.
\<close>

datatype typeError = TypeError

fun escapeMarkdownTextOf :: "contentValue \<Rightarrow> typeError + string" where
  "escapeMarkdownTextOf (Plain s) = Inr (escapeMarkdownText s)"
| "escapeMarkdownTextOf (SafeString v) = Inl TypeError"
| "escapeMarkdownTextOf (Nested wr) = Inl TypeError"


text \<open>
  \<open>section\<close>: the callback runs first, then the title is escaped in safe mode; nothing is
  pushed when that throws.
\<close>

definition sectionBody ::
  "writer \<Rightarrow> contentValue \<Rightarrow> (writer \<Rightarrow> writer) \<Rightarrow> nat \<Rightarrow> typeError + string" where
  "sectionBody this name builder level =
     (let sectionWriter = builder (createChildWriter this);
          hashes = replicate level (CHR ''#'')
      in case (if safeMode this then escapeMarkdownTextOf name else Inr (stringOf name)) of
           Inl e \<Rightarrow> Inl e
         | Inr title \<Rightarrow> Inr (hashes @ '' '' @ title @ [nl, nl] @ toString sectionWriter))"

definition section_block ::
  "contentValue \<Rightarrow> (writer \<Rightarrow> writer) \<Rightarrow> nat \<Rightarrow> writer \<Rightarrow> typeError + writer" where
  "section_block name builder level w =
     (case sectionBody w name builder level of
        Inl e \<Rightarrow> Inl e
      | Inr body \<Rightarrow> Inr (pushPadded body w))"






text \<open>
  \<open>table\<close>: headers and the cells of an array row are typed \<open>string\<close>; a row may also be a
  record looked up by header, where a missing cell is \<open>undefined\<close> and renders as the empty
  string. In safe mode the headers are escaped first, the cells go through \<open>String(val)\<close>
  and are escaped whatever they are. The plain-text projection of a writer-valued cell is
  the parameter \<open>plain\<close>.
\<close>

datatype tableRow = RowArray "contentValue list" | RowRecord "string \<Rightarrow> contentValue option"





section \<open>Structured output and validation\<close>

text \<open>
  The data handed to \<open>json\<close> and \<open>yaml\<close>: JSON-like values and \<open>undefined\<close>. A number
  carries the text \<open>String(n)\<close> gives.
\<close>

datatype jsValue =
    JNull
  | JUndefined
  | JString string
  | JNumber string
  | JBoolean bool
  | JArray "jsValue list"
  | JObject "(string \<times> jsValue) list"

datatype outputFormat = JsonFormat | YamlFormat

record validationIssue =
  message :: string
  path :: "string option"

record validationResult =
  valid :: bool
  issues :: "validationIssue list option"

text \<open>What a caller-supplied function may throw: an \<open>Error\<close> with its message, or any other value.\<close>

datatype thrown = ThrownError string | ThrownOther

text \<open>
  The outcome of a call that raised: a \<open>ValidationError\<close> with its format, issues and
  label, or whatever the validator itself threw.
\<close>

datatype error =
    ValidationError outputFormat "validationIssue list" "string option"
  | Uncaught thrown

record validationOptions =
  schema :: "jsValue option"
  validate :: "(outputFormat \<times> jsValue \<times> jsValue option \<Rightarrow> thrown + validationResult) option"
  label :: "string option"
  parseYaml :: "(string \<Rightarrow> thrown + jsValue) option"

fun thrownMessage :: "string \<Rightarrow> thrown \<Rightarrow> string" where
  "thrownMessage fallback (ThrownError m) = m"
| "thrownMessage fallback ThrownOther = fallback"

text \<open>
  \<open>validateOutput\<close>, with the built-in \<open>JSON.parse\<close> as the parameter \<open>jsonParse\<close>
  (\<open>Inl\<close> is the error it throws). \<open>None\<close> is the normal return.
\<close>

definition runValidator ::
  "outputFormat \<Rightarrow> jsValue \<Rightarrow> validationOptions
     \<Rightarrow> (outputFormat \<times> jsValue \<times> jsValue option \<Rightarrow> thrown + validationResult)
     \<Rightarrow> error option" where
  "runValidator format validationData options v =
     (case v (format, validationData, schema options) of
        Inl t \<Rightarrow> Some (Uncaught t)
      | Inr result \<Rightarrow>
          if valid result then None
          else Some (ValidationError format
                 (case issues result of None \<Rightarrow> [] | Some is \<Rightarrow> is) (label options)))"

definition validateOutput ::
  "(string \<Rightarrow> thrown + jsValue) \<Rightarrow> outputFormat \<Rightarrow> jsValue \<Rightarrow> validationOptions
     \<Rightarrow> error option" where
  "validateOutput jsonParse format data options =
     (case validate options of
        None \<Rightarrow> None
      | Some v \<Rightarrow>
         (case (format, data) of
            (JsonFormat, JString s) \<Rightarrow>
              (case jsonParse s of
                 Inl e \<Rightarrow> Some (ValidationError format
                   [\<lparr>message = ''Invalid JSON string: '' @ thrownMessage ''Invalid JSON string'' e,
                     path = Some ''$''\<rparr>] (label options))
               | Inr parsed \<Rightarrow> runValidator format parsed options v)
          | (YamlFormat, JString s) \<Rightarrow>
              (case parseYaml options of
                 None \<Rightarrow> runValidator format data options v
               | Some p \<Rightarrow>
                  (case p s of
                     Inl e \<Rightarrow> Some (ValidationError format
                       [\<lparr>message = ''Invalid YAML string: ''
                            @ thrownMessage ''Invalid YAML string'' e,
                         path = Some ''$''\<rparr>] (label options))
                   | Inr parsed \<Rightarrow> runValidator format parsed options v))
          | _ \<Rightarrow> runValidator format data options v))"

text \<open>\<open>/[:\n#"']/.test(data)\<close> of \<open>toYamlString\<close>.\<close>

definition needsYamlQuotes :: "string \<Rightarrow> bool" where
  "needsYamlQuotes s = list_ex (\<lambda>c. c = CHR '':'' \<or> c = nl \<or> c = CHR ''#''
     \<or> c = CHR 0x22 \<or> c = CHR 0x27) s"

fun isObjectValue :: "jsValue \<Rightarrow> bool" where
  "isObjectValue (JObject es) = True"
| "isObjectValue (JArray xs) = True"
| "isObjectValue v = False"

fun toYamlString :: "jsValue \<Rightarrow> nat \<Rightarrow> string" where
  "toYamlString JNull indent = ''null''"
| "toYamlString JUndefined indent = ''null''"
| "toYamlString (JString s) indent =
     (if needsYamlQuotes s \<or> s = []
      then [CHR 0x22] @ replaceChar (CHR 0x22) [bslash, CHR 0x22] s @ [CHR 0x22]
      else s)"
| "toYamlString (JNumber n) indent = n"
| "toYamlString (JBoolean b) indent = (if b then ''true'' else ''false'')"
| "toYamlString (JArray xs) indent =
     (if xs = [] then ''[]''
      else join [nl] (map (\<lambda>item. concat (replicate indent ''  '') @ ''- ''
             @ toYamlString item (indent + 1)) xs))"
| "toYamlString (JObject es) indent =
     (if es = [] then ''{}''
      else join [nl] (map (\<lambda>(key, v).
             if isObjectValue v
             then concat (replicate indent ''  '') @ key @ '':'' @ [nl]
                    @ toYamlString v (indent + 1)
             else concat (replicate indent ''  '') @ key @ '': ''
                    @ toYamlString v (indent + 1)) es))"

text \<open>
  \<open>json\<close> and \<open>yaml\<close> return the error raised, if any, and the writer after the call. The
  built-in \<open>JSON.stringify(data, null, 2)\<close> is the parameter \<open>stringify\<close>.
\<close>

definition json ::
  "(string \<Rightarrow> thrown + jsValue) \<Rightarrow> (jsValue \<Rightarrow> string) \<Rightarrow> jsValue \<Rightarrow> validationOptions
     \<Rightarrow> writer \<Rightarrow> error option \<times> writer" where
  "json jsonParse stringify data options w =
     (case validateOutput jsonParse JsonFormat data options of
        Some e \<Rightarrow> (Some e, w)
      | None \<Rightarrow>
          let jsonString = (case data of JString s \<Rightarrow> s | _ \<Rightarrow> stringify data)
          in (None, codeblock ''json'' (Content (Plain jsonString)) w))"

definition yaml ::
  "(string \<Rightarrow> thrown + jsValue) \<Rightarrow> jsValue \<Rightarrow> validationOptions
     \<Rightarrow> writer \<Rightarrow> error option \<times> writer" where
  "yaml jsonParse data options w =
     (case validateOutput jsonParse YamlFormat data options of
        Some e \<Rightarrow> (Some e, w)
      | None \<Rightarrow>
          let yamlString = (case data of JString s \<Rightarrow> s | _ \<Rightarrow> toYamlString data 0)
          in (None, codeblock ''yaml'' (Content (Plain yamlString)) w))"

text \<open>The options of a call that passes none: \<open>options = {}\<close>.\<close>

definition noOptions :: validationOptions where
  "noOptions = \<lparr>schema = None, validate = None, label = None, parseYaml = None\<rparr>"


text \<open>
  Counting the scalar items of a list, and reading a decimal numeral back, to state how an
  ordered list numbers its items.
\<close>

fun isScalar :: "contentValue \<Rightarrow> bool" where
  "isScalar (Nested wr) = False"
| "isScalar c = True"

definition scalarCount :: "contentValue list \<Rightarrow> nat" where
  "scalarCount items = length (filter isScalar items)"

fun isItemText :: "listItem \<Rightarrow> bool" where
  "isItemText (ItemText t) = True"
| "isItemText (ItemWriter wr) = False"

definition textCount :: "listItem list \<Rightarrow> nat" where
  "textCount items = length (filter isItemText items)"

definition readNat :: "string \<Rightarrow> nat" where
  "readNat s = foldl (\<lambda>a c. 10 * a + (of_char c - 48)) 0 s"


section \<open>Sequences of block appends\<close>

text \<open>
  A call of \<open>write\<close> or of one of the block appenders, as a value, so that a statement can
  range over all of them. \<open>opBody\<close> is the text the call pushes after the padding prefix,
  \<open>applyOp\<close> the call itself; both are \<open>Inl\<close> when the call throws.
\<close>

datatype blockOp =
    OpWrite "contentValue list"
  | OpList listArgs
  | OpUnorderedList listArgs
  | OpOrderedList listArgs
  | OpTasks taskArgs
  | OpHeading nat "contentValue list"
  | OpBlockquote "contentValue list"
  | OpCodeblock string bodyArg
  | OpSeparator
  | OpCallout calloutType bodyArg
  | OpTag string bodyArg
  | OpTable "contentValue list" "tableRow list"
  | OpDefinitions "(string \<times> contentValue) list"
  | OpComment string
  | OpDelimit string string contentValue















definition startsWithContent :: "string \<Rightarrow> bool" where
  "startsWithContent b = (b \<noteq> [] \<and> hd b \<noteq> nl)"



text \<open>
  Calls that are given only outputs of safe inline formatters. Such an output is a
  \<open>SafeString\<close>. \<open>trustedOp\<close> holds of a call when every value it is given is one and it
  runs no callback on a child writer; it leaves out \<open>table\<close> and \<open>definitions\<close>, which do
  not read their values through \<open>toContentString\<close>.
\<close>

fun isSafeString :: "contentValue \<Rightarrow> bool" where
  "isSafeString (SafeString v) = True"
| "isSafeString c = False"

fun trustedCall :: "listCall \<Rightarrow> bool"
  and trustedArgs :: "listArgs \<Rightarrow> bool" where
  "trustedCall (ItemCall content) = list_all isSafeString content"
| "trustedCall (TaskCall checked content) = list_all isSafeString content"
| "trustedCall (TodoCall content) = list_all isSafeString content"
| "trustedCall (DoneCall content) = list_all isSafeString content"
| "trustedCall (CommentCall content) = True"
| "trustedCall (UnorderedListCall args) = trustedArgs args"
| "trustedCall (ListCall args) = trustedArgs args"
| "trustedCall (OrderedListCall args) = trustedArgs args"
| "trustedArgs (Items items) = list_all isSafeString items"
| "trustedArgs (Builder calls) = list_all trustedCall calls"

fun trustedTask :: "taskArg \<Rightarrow> bool" where
  "trustedTask (TaskValue c) = isSafeString c"
| "trustedTask (TaskPair c checked) = isSafeString c"

fun trustedTasks :: "taskArgs \<Rightarrow> bool" where
  "trustedTasks (TaskItems args) = list_all trustedTask args"
| "trustedTasks (TaskBuilder calls) = list_all trustedCall calls"

fun trustedBody :: "bodyArg \<Rightarrow> bool" where
  "trustedBody (Content c) = isSafeString c"
| "trustedBody (Build f) = False"

fun trustedOp :: "blockOp \<Rightarrow> bool" where
  "trustedOp (OpWrite content) = list_all isSafeString content"
| "trustedOp (OpList args) = trustedArgs args"
| "trustedOp (OpUnorderedList args) = trustedArgs args"
| "trustedOp (OpOrderedList args) = trustedArgs args"
| "trustedOp (OpTasks args) = trustedTasks args"
| "trustedOp (OpHeading level content) = list_all isSafeString content"
| "trustedOp (OpBlockquote lines) = list_all isSafeString lines"
| "trustedOp (OpCodeblock language content) = True"
| "trustedOp OpSeparator = True"
| "trustedOp (OpCallout type content) = trustedBody content"
| "trustedOp (OpTag name content) = trustedBody content"
| "trustedOp (OpTable headers rows) = False"
| "trustedOp (OpDefinitions obj) = False"
| "trustedOp (OpComment content) = True"
| "trustedOp (OpDelimit open close content) = True"

text \<open>What the rendering of a collected list item depends on: its text, or the writer's.\<close>

fun itemContent :: "listItem \<Rightarrow> string + string" where
  "itemContent (ItemText t) = Inl t"
| "itemContent (ItemWriter wr) = Inr (toString wr)"


section \<open>Facts about the string functions\<close>

lemma endsWith_one_iff: "endsWith s [nl] \<longleftrightarrow> 1 \<le> trailingNewlines s"
proof (cases s rule: rev_cases)
  case Nil
  then show ?thesis by (simp add: endsWith_def trailingNewlines_def)
next
  case (snoc xs x)
  then show ?thesis by (simp add: endsWith_def trailingNewlines_def)
qed

lemma endsWith_two_iff: "endsWith s [nl, nl] \<longleftrightarrow> 2 \<le> trailingNewlines s"
proof (cases s rule: rev_cases)
  case Nil
  then show ?thesis by (simp add: endsWith_def trailingNewlines_def)
next
  case (snoc xs x)
  note outer = snoc
  show ?thesis
  proof (cases xs rule: rev_cases)
    case Nil
    with outer show ?thesis by (simp add: endsWith_def trailingNewlines_def)
  next
    case (snoc ys y)
    with outer show ?thesis by (simp add: endsWith_def trailingNewlines_def)
  qed
qed

section \<open>The padding prefix\<close>

text \<open>
  C1. The prefix computed for an append is empty when the one-shot flag is set or nothing
  has been appended yet, and the flag is clear afterwards; otherwise it is empty when the
  last fragment ends with two newlines, one newline when the last fragment ends with
  exactly one newline, and two newlines when it ends with none. Reading the padding
  changes nothing else of the writer.
\<close>

theorem padding_prefix:
  assumes "padding w = (p, w')"
  shows "parts w' = parts w \<and> safeMode w' = safeMode w \<and> \<not> skipNextPadding w'
    \<and> (skipNextPadding w \<or> parts w = [] \<longrightarrow> p = [])
    \<and> (\<not> skipNextPadding w \<and> parts w \<noteq> [] \<longrightarrow>
          (2 \<le> trailingNewlines (last (parts w)) \<longrightarrow> p = [])
        \<and> (trailingNewlines (last (parts w)) = 1 \<longrightarrow> p = [nl])
        \<and> (trailingNewlines (last (parts w)) = 0 \<longrightarrow> p = [nl, nl]))"
  using assms
  unfolding padding_def Let_def
  by (auto simp: endsWith_one_iff endsWith_two_iff split: if_splits)

theorem padding_prefix_witness:
  "padding \<lparr>parts = [''a''], skipNextPadding = True, safeMode = False\<rparr>
     = ([], \<lparr>parts = [''a''], skipNextPadding = False, safeMode = False\<rparr>)
   \<and> fst (padding \<lparr>parts = [''a'' @ [nl, nl]], skipNextPadding = False, safeMode = False\<rparr>) = []
   \<and> fst (padding \<lparr>parts = [''a'' @ [nl]], skipNextPadding = False, safeMode = False\<rparr>) = [nl]
   \<and> fst (padding \<lparr>parts = [''a''], skipNextPadding = False, safeMode = False\<rparr>) = [nl, nl]"
proof -
  let ?f = "\<lparr>parts = [''a''], skipNextPadding = True, safeMode = False\<rparr>"
  let ?w2 = "\<lparr>parts = [''a'' @ [nl, nl]], skipNextPadding = False, safeMode = False\<rparr>"
  let ?w1 = "\<lparr>parts = [''a'' @ [nl]], skipNextPadding = False, safeMode = False\<rparr>"
  let ?w0 = "\<lparr>parts = [''a''], skipNextPadding = False, safeMode = False\<rparr>"
  have p: "padding w = (fst (padding w), snd (padding w))" for w
    by simp
  have t: "trailingNewlines (last (parts ?w2)) = 2" "trailingNewlines (last (parts ?w1)) = 1"
    "trailingNewlines (last (parts ?w0)) = 0"
    by (simp_all add: trailingNewlines_def)
  have f: "fst (padding ?f) = [] \<and> \<not> skipNextPadding (snd (padding ?f))
      \<and> parts (snd (padding ?f)) = parts ?f \<and> safeMode (snd (padding ?f)) = safeMode ?f"
    using padding_prefix [OF p [of ?f]] by simp
  then have f': "padding ?f = ([], \<lparr>parts = [''a''], skipNextPadding = False, safeMode = False\<rparr>)"
    by (cases "padding ?f") simp
  have w2: "fst (padding ?w2) = []"
    using padding_prefix [OF p [of ?w2]] t(1) by simp
  have w1: "fst (padding ?w1) = [nl]"
    using padding_prefix [OF p [of ?w1]] t(2) by simp
  have w0: "fst (padding ?w0) = [nl, nl]"
    using padding_prefix [OF p [of ?w0]] t(3) by simp
  show ?thesis
    using f' w2 w1 w0 by simp
qed

section \<open>Appending an empty writer\<close>

text \<open>
  C10. Appending a writer whose rendered text is empty leaves the receiver exactly as it
  was: the same fragments, the same rendered text, and a pending \<open>nextLine()\<close> flag is
  still pending.
\<close>

theorem append_empty_unchanged:
  assumes "toString s = []"
  shows "append_writer s w = w"
  using assms unfolding append_writer_def by simp

theorem append_empty_unchanged_witness:
  "toString (newWriter None False) = []
   \<and> append_writer (newWriter None False) (nextLine (newWriter (Some ''a'') True))
       = nextLine (newWriter (Some ''a'') True)
   \<and> skipNextPadding (append_writer (newWriter None False)
        (nextLine (newWriter (Some ''a'') True)))"
  using append_empty_unchanged [of "newWriter None False"
      "nextLine (newWriter (Some ''a'') True)"]
  by (simp add: toString_def newWriter_def nextLine_def)

section \<open>Writing nothing\<close>

lemma escapeMarkdownText_empty: "escapeMarkdownText [] = []"
  by (simp add: escapeMarkdownText_def escapeXmlText_def replaceChar_def
      escapeMarkdownLineStart_def Let_def)

lemma padding_newlines:
  "length (fst (padding w)) \<le> 2 \<and> set (fst (padding w)) \<subseteq> {nl}"
  unfolding padding_def Let_def by simp

lemma padding_parts: "parts (snd (padding w)) = parts w"
  unfolding padding_def Let_def by simp

lemma toString_pushPadded:
  "toString (pushPadded body w) = toString w @ fst (padding w) @ body"
  unfolding pushPadded_def toString_def
  by (simp add: padding_parts split: prod.splits)
     (metis snd_conv padding_parts)

lemma trailingNewlines_append_nl:
  "trailingNewlines (s @ [nl]) = Suc (trailingNewlines s)"
  unfolding trailingNewlines_def by simp

lemma trailingNewlines_concat_last:
  assumes "xs \<noteq> []" "trailingNewlines (last xs) < length (last xs)"
  shows "trailingNewlines (concat xs) = trailingNewlines (last xs)"
proof -
  obtain ys l where xs: "xs = ys @ [l]"
    using assms(1) by (metis append_butlast_last_id)
  from assms(2) xs have lt: "length (takeWhile (\<lambda>c. c = nl) (rev l)) < length (rev l)"
    by (simp add: trailingNewlines_def)
  have ex: "\<exists>x \<in> set (rev l). \<not> x = nl"
  proof (rule ccontr)
    assume "\<not> (\<exists>x \<in> set (rev l). \<not> x = nl)"
    then have "takeWhile (\<lambda>c. c = nl) (rev l) = rev l"
      by simp
    with lt show False by simp
  qed
  from ex obtain x where "x \<in> set (rev l)" "\<not> x = nl" by blast
  then have "takeWhile (\<lambda>c. c = nl) (rev l @ rev (concat ys)) = takeWhile (\<lambda>c. c = nl) (rev l)"
    by (rule takeWhile_append1)
  with xs show ?thesis
    by (simp add: trailingNewlines_def)
qed

text \<open>
  C7. On a writer to which nothing has been appended, \<open>write()\<close> and \<open>write('')\<close> change
  nothing and the rendered text stays empty. On a writer with fragments, \<open>write()\<close> appends
  one fragment: the padding prefix followed by a single newline, that is one empty line
  after the usual separation. When the last fragment has content and ends with at most two
  newlines and no \<open>nextLine()\<close> is pending, the rendered text then ends with exactly three
  newlines: the blank line of a paragraph break and one extra blank line.
\<close>

theorem empty_write_noop:
  "(parts w = [] \<longrightarrow>
      write_content [] w = w \<and> write_content [Plain []] w = w
      \<and> toString (write_content [] w) = [] \<and> toString (write_content [Plain []] w) = [])
   \<and> (parts w \<noteq> [] \<longrightarrow>
      write_content [] w = pushPadded [nl] w
      \<and> toString (write_content [] w) = toString w @ fst (padding w) @ [nl]
      \<and> length (fst (padding w)) \<le> 2 \<and> set (fst (padding w)) \<subseteq> {nl})
   \<and> (parts w \<noteq> [] \<and> \<not> skipNextPadding w
        \<and> trailingNewlines (last (parts w)) \<le> 2
        \<and> trailingNewlines (last (parts w)) < length (last (parts w)) \<longrightarrow>
      trailingNewlines (toString (write_content [] w)) = 3)"
proof (intro conjI impI)
  assume e: "parts w = []"
  then show "write_content [] w = w" by (simp add: write_content_def writeJoined_def)
  from e show "write_content [Plain []] w = w"
    by (simp add: write_content_def writeJoined_def escapeUntrusted_def escapeMarkdownText_empty)
  from e show "toString (write_content [] w) = []"
    by (simp add: write_content_def writeJoined_def toString_def)
  from e show "toString (write_content [Plain []] w) = []"
    by (simp add: write_content_def writeJoined_def escapeUntrusted_def escapeMarkdownText_empty toString_def)
next
  assume ne: "parts w \<noteq> []"
  then show w: "write_content [] w = pushPadded [nl] w"
    by (simp add: write_content_def writeJoined_def)
  from ne show "toString (write_content [] w) = toString w @ fst (padding w) @ [nl]"
    by (simp add: write_content_def writeJoined_def toString_pushPadded)
  show "length (fst (padding w)) \<le> 2" using padding_newlines by simp
  show "set (fst (padding w)) \<subseteq> {nl}" using padding_newlines by simp
next
  assume a: "parts w \<noteq> [] \<and> \<not> skipNextPadding w
        \<and> trailingNewlines (last (parts w)) \<le> 2
        \<and> trailingNewlines (last (parts w)) < length (last (parts w))"
  define t where "t = trailingNewlines (last (parts w))"
  have ts: "trailingNewlines (toString w) = t"
    unfolding toString_def t_def using a by (intro trailingNewlines_concat_last) simp_all
  have pl: "length (fst (padding w)) = 2 - t"
    using a unfolding padding_def Let_def t_def
    by (auto simp: endsWith_one_iff endsWith_two_iff)
  have pn: "fst (padding w) = replicate (2 - t) nl"
    using pl padding_newlines [of w]
    by (metis replicate_length_same empty_iff insert_iff subsetD)
  have "toString (write_content [] w) = toString w @ replicate (2 - t) nl @ [nl]"
    using a pn by (simp add: write_content_def writeJoined_def toString_pushPadded)
  moreover have "trailingNewlines (toString w @ replicate n nl) = trailingNewlines (toString w) + n"
    for n unfolding trailingNewlines_def by (induction n) (simp_all add: replicate_append_same)
  ultimately show "trailingNewlines (toString (write_content [] w)) = 3"
    using ts a
    by (simp add: trailingNewlines_append_nl t_def flip: append_assoc)
qed

theorem empty_write_noop_witness:
  "parts (newWriter None True) = []
   \<and> toString (write_content [Plain []] (newWriter None True)) = []
   \<and> toString (write_content [] (newWriter None True)) = []
   \<and> parts (write_content [Plain ''hello''] (newWriter None False)) \<noteq> []
   \<and> toString (write_content [] (write_content [Plain ''hello''] (newWriter None False)))
        = ''hello'' @ [nl, nl, nl]
   \<and> trailingNewlines (toString (write_content []
          (write_content [Plain ''hello''] (newWriter None False)))) = 3"
proof -
  let ?e = "newWriter None True"
  let ?h = "write_content [Plain ''hello''] (newWriter None False)"
  have h1: "parts ?e = []"
    by code_simp
  have c1: "toString (write_content [Plain []] ?e) = [] \<and> toString (write_content [] ?e) = []"
    using empty_write_noop [of ?e] h1 by blast
  have h2: "parts ?h \<noteq> [] \<and> \<not> skipNextPadding ?h
      \<and> trailingNewlines (last (parts ?h)) \<le> 2
      \<and> trailingNewlines (last (parts ?h)) < length (last (parts ?h))"
    by code_simp
  have c2: "trailingNewlines (toString (write_content [] ?h)) = 3"
    using empty_write_noop [of ?h] h2 by blast
  have e: "toString (write_content [] ?h) = ''hello'' @ [nl, nl, nl]"
    by code_simp
  show ?thesis
    using h1 c1 h2 c2 e by blast
qed

section \<open>Code blocks built by a callback\<close>

text \<open>
  C5, as amended. When \<open>codeblock\<close> is called with a callback, on a safe writer or not,
  the callback is given a fresh writer with no fragments and safe mode off; the text that
  writer renders, trimmed of surrounding white space, is the fenced body, and what is
  appended is the padding, the opening fence with the language tag, a newline, the body, a
  newline, the closing fence and a blank line.
\<close>

theorem codeblock_builder_child:
  "codeblock language (Build f) w
     = pushPadded ([btick, btick, btick] @ language @ [nl]
         @ trim (toString (f \<lparr>parts = [], skipNextPadding = False, safeMode = False\<rparr>))
         @ [nl] @ [btick, btick, btick] @ [nl, nl]) w
   \<and> toString (codeblock language (Build f) w)
     = toString w @ fst (padding w) @ [btick, btick, btick] @ language @ [nl]
         @ trim (toString (f \<lparr>parts = [], skipNextPadding = False, safeMode = False\<rparr>))
         @ [nl] @ [btick, btick, btick] @ [nl, nl]"
  by (simp add: codeblock_def codeblockBody_def newWriter_def toString_pushPadded)

text \<open>
  C5 as stated fails on the inherited flag: on a safe writer the callback's
  \<open>write('a*b')\<close> is fenced unescaped, while a child made by \<open>createChildWriter\<close> renders
  the asterisk escaped.
\<close>

theorem codeblock_child_not_safe_counterexample:
  "safeMode (newWriter None True)
   \<and> toString (codeblock ''js'' (Build (write_content [Plain ''a*b''])) (newWriter None True))
       = [btick, btick, btick] @ ''js'' @ [nl] @ ''a*b'' @ [nl] @ [btick, btick, btick] @ [nl, nl]
   \<and> trim (toString (write_content [Plain ''a*b''] (createChildWriter (newWriter None True))))
       = ''a'' @ [bslash] @ ''*b''"
  by code_simp

section \<open>Validation before serialization\<close>

lemma validateOutput_absent:
  "validate options = None \<Longrightarrow> validateOutput jsonParse format data options = None"
  by (simp add: validateOutput_def)

lemma runValidator_invalid:
  "v (format, d, schema options) = Inr r \<Longrightarrow> \<not> valid r \<Longrightarrow>
   runValidator format d options v
     = Some (ValidationError format (case issues r of None \<Rightarrow> [] | Some is \<Rightarrow> is) (label options))"
  by (simp add: runValidator_def)

text \<open>
  C4. With a validator present, \<open>json\<close> and \<open>yaml\<close> raise a \<open>ValidationError\<close> and leave
  the writer as it was when a JSON string does not parse, when the supplied \<open>parseYaml\<close>
  throws on a YAML string, or when the validator reports \<open>valid: false\<close> on the data it
  is given (the parsed value of a string, the data itself otherwise). With no validator
  nothing is validated and the data is serialized into a code block.
\<close>

theorem validation_gating:
  "(validate options = Some v \<and> data = JString s \<and> jsonParse s = Inl e \<longrightarrow>
      (\<exists>is. is \<noteq> [] \<and> json jsonParse stringify data options w
         = (Some (ValidationError JsonFormat is (label options)), w)))
   \<and> (validate options = Some v \<and> data = JString s \<and> parseYaml options = Some p \<and> p s = Inl e \<longrightarrow>
      (\<exists>is. is \<noteq> [] \<and> yaml jsonParse data options w
         = (Some (ValidationError YamlFormat is (label options)), w)))
   \<and> (validate options = Some v \<and> \<not> valid r
        \<and> ((data = JString s \<and> jsonParse s = Inr d) \<or> ((\<forall>t. data \<noteq> JString t) \<and> d = data))
        \<and> v (JsonFormat, d, schema options) = Inr r \<longrightarrow>
      json jsonParse stringify data options w
         = (Some (ValidationError JsonFormat (case issues r of None \<Rightarrow> [] | Some is \<Rightarrow> is)
              (label options)), w))
   \<and> (validate options = Some v \<and> \<not> valid r
        \<and> ((data = JString s \<and> parseYaml options = Some p \<and> p s = Inr d)
            \<or> (((\<forall>t. data \<noteq> JString t) \<or> parseYaml options = None) \<and> d = data))
        \<and> v (YamlFormat, d, schema options) = Inr r \<longrightarrow>
      yaml jsonParse data options w
         = (Some (ValidationError YamlFormat (case issues r of None \<Rightarrow> [] | Some is \<Rightarrow> is)
              (label options)), w))
   \<and> (validate options = None \<longrightarrow>
      json jsonParse stringify data options w
         = (None, codeblock ''json''
              (Content (Plain (case data of JString t \<Rightarrow> t | _ \<Rightarrow> stringify data))) w)
      \<and> yaml jsonParse data options w
         = (None, codeblock ''yaml''
              (Content (Plain (case data of JString t \<Rightarrow> t | _ \<Rightarrow> toYamlString data 0))) w))"
proof (intro conjI impI)
  assume "validate options = Some v \<and> data = JString s \<and> jsonParse s = Inl e"
  then show "\<exists>is. is \<noteq> [] \<and> json jsonParse stringify data options w
         = (Some (ValidationError JsonFormat is (label options)), w)"
    by (simp add: json_def validateOutput_def)
next
  assume "validate options = Some v \<and> data = JString s \<and> parseYaml options = Some p \<and> p s = Inl e"
  then show "\<exists>is. is \<noteq> [] \<and> yaml jsonParse data options w
         = (Some (ValidationError YamlFormat is (label options)), w)"
    by (simp add: yaml_def validateOutput_def)
next
  assume a: "validate options = Some v \<and> \<not> valid r
        \<and> ((data = JString s \<and> jsonParse s = Inr d) \<or> ((\<forall>t. data \<noteq> JString t) \<and> d = data))
        \<and> v (JsonFormat, d, schema options) = Inr r"
  then have "validateOutput jsonParse JsonFormat data options
      = runValidator JsonFormat d options v"
    by (cases data) (auto simp: validateOutput_def)
  with a show "json jsonParse stringify data options w
         = (Some (ValidationError JsonFormat (case issues r of None \<Rightarrow> [] | Some is \<Rightarrow> is)
              (label options)), w)"
    by (simp add: json_def runValidator_invalid)
next
  assume a: "validate options = Some v \<and> \<not> valid r
        \<and> ((data = JString s \<and> parseYaml options = Some p \<and> p s = Inr d)
            \<or> (((\<forall>t. data \<noteq> JString t) \<or> parseYaml options = None) \<and> d = data))
        \<and> v (YamlFormat, d, schema options) = Inr r"
  then have "validateOutput jsonParse YamlFormat data options
      = runValidator YamlFormat d options v"
    by (cases data) (auto simp: validateOutput_def)
  with a show "yaml jsonParse data options w
         = (Some (ValidationError YamlFormat (case issues r of None \<Rightarrow> [] | Some is \<Rightarrow> is)
              (label options)), w)"
    by (simp add: yaml_def runValidator_invalid)
next
  assume "validate options = None"
  then show "json jsonParse stringify data options w
         = (None, codeblock ''json''
              (Content (Plain (case data of JString t \<Rightarrow> t | _ \<Rightarrow> stringify data))) w)"
    by (simp add: json_def validateOutput_absent)
next
  assume "validate options = None"
  then show "yaml jsonParse data options w
         = (None, codeblock ''yaml''
              (Content (Plain (case data of JString t \<Rightarrow> t | _ \<Rightarrow> toYamlString data 0))) w)"
    by (simp add: yaml_def validateOutput_absent)
qed

theorem validation_gating_witness:
  "json (\<lambda>s. Inl (ThrownError ''Unexpected end of JSON input'')) (\<lambda>d. ''null'') (JString ''{'')
      \<lparr>schema = None,
       validate = Some (\<lambda>x. Inr \<lparr>valid = False,
                          issues = Some [\<lparr>message = ''bad'', path = None\<rparr>]\<rparr>),
       label = Some ''Payload'', parseYaml = None\<rparr>
      (newWriter (Some ''a'') False)
    = (Some (ValidationError JsonFormat
         [\<lparr>message = ''Invalid JSON string: Unexpected end of JSON input'', path = Some ''$''\<rparr>]
         (Some ''Payload'')),
       newWriter (Some ''a'') False)
   \<and> yaml (\<lambda>s. Inr JNull) (JNumber ''1'')
      \<lparr>schema = None,
       validate = Some (\<lambda>x. Inr \<lparr>valid = False,
                          issues = Some [\<lparr>message = ''bad'', path = None\<rparr>]\<rparr>),
       label = Some ''Payload'', parseYaml = None\<rparr>
      (newWriter (Some ''a'') False)
    = (Some (ValidationError YamlFormat [\<lparr>message = ''bad'', path = None\<rparr>] (Some ''Payload'')),
       newWriter (Some ''a'') False)
   \<and> toString (snd (json (\<lambda>s. Inl ThrownOther) (\<lambda>d. ''null'') (JString ''{'') noOptions
        (newWriter (Some ''a'') False)))
    = ''a'' @ [nl, nl] @ [btick, btick, btick] @ ''json'' @ [nl] @ ''{'' @ [nl]
        @ [btick, btick, btick] @ [nl, nl]"
proof -
  let ?v = "\<lambda>x :: outputFormat \<times> jsValue \<times> jsValue option.
      (Inr \<lparr>valid = False, issues = Some [\<lparr>message = ''bad'', path = None\<rparr>]\<rparr>
        :: thrown + validationResult)"
  let ?o = "\<lparr>schema = None, validate = Some ?v, label = Some ''Payload'', parseYaml = None\<rparr>"
  let ?p = "\<lambda>s :: string. (Inl (ThrownError ''Unexpected end of JSON input'') :: thrown + jsValue)"
  let ?w = "newWriter (Some ''a'') False"
  have h1: "validate ?o = Some ?v \<and> JString ''{'' = JString ''{''
      \<and> ?p ''{'' = Inl (ThrownError ''Unexpected end of JSON input'')"
    by simp
  have c1: "\<exists>is. is \<noteq> [] \<and> json ?p (\<lambda>d. ''null'') (JString ''{'') ?o ?w
      = (Some (ValidationError JsonFormat is (label ?o)), ?w)"
    using validation_gating [where options = ?o and v = ?v and data = "JString ''{''"
        and s = "''{''" and jsonParse = ?p and e = "ThrownError ''Unexpected end of JSON input''"
        and stringify = "\<lambda>d. ''null''" and w = ?w] h1
    by blast
  have e1: "json ?p (\<lambda>d. ''null'') (JString ''{'') ?o ?w
    = (Some (ValidationError JsonFormat
         [\<lparr>message = ''Invalid JSON string: Unexpected end of JSON input'', path = Some ''$''\<rparr>]
         (Some ''Payload'')), ?w)"
    by (simp add: json_def validateOutput_def)
  have h2: "validate ?o = Some ?v
      \<and> \<not> valid \<lparr>valid = False, issues = Some [\<lparr>message = ''bad'', path = None\<rparr>]\<rparr>
      \<and> ((JNumber ''1'' = JString [] \<and> parseYaml ?o = Some (\<lambda>s. Inr JNull)
            \<and> (\<lambda>s. Inr JNull) [] = (Inr (JNumber ''1'') :: thrown + jsValue))
          \<or> (((\<forall>t. JNumber ''1'' \<noteq> JString t) \<or> parseYaml ?o = None)
             \<and> JNumber ''1'' = JNumber ''1''))
      \<and> ?v (YamlFormat, JNumber ''1'', schema ?o)
          = Inr \<lparr>valid = False, issues = Some [\<lparr>message = ''bad'', path = None\<rparr>]\<rparr>"
    by simp
  have c2: "yaml (\<lambda>s. Inr JNull) (JNumber ''1'') ?o ?w
    = (Some (ValidationError YamlFormat
         (case issues \<lparr>valid = False, issues = Some [\<lparr>message = ''bad'', path = None\<rparr>]\<rparr>
          of None \<Rightarrow> [] | Some is \<Rightarrow> is) (label ?o)), ?w)"
    using validation_gating [where options = ?o and v = ?v and data = "JNumber ''1''"
        and s = "[]" and jsonParse = "\<lambda>s. Inr JNull" and p = "\<lambda>s. Inr JNull"
        and d = "JNumber ''1''"
        and r = "\<lparr>valid = False, issues = Some [\<lparr>message = ''bad'', path = None\<rparr>]\<rparr>"
        and w = ?w] h2
    by blast
  have h3: "validate noOptions = None"
    by (simp add: noOptions_def)
  have c3: "json (\<lambda>s. Inl ThrownOther) (\<lambda>d. ''null'') (JString ''{'') noOptions ?w
      = (None, codeblock ''json'' (Content (Plain (case JString ''{'' of JString t \<Rightarrow> t
            | _ \<Rightarrow> (\<lambda>d. ''null'') (JString ''{'')))) ?w)"
    using validation_gating [where options = noOptions and data = "JString ''{''"
        and jsonParse = "\<lambda>s. Inl ThrownOther" and stringify = "\<lambda>d. ''null''" and w = ?w] h3
    by blast
  have e3: "toString (codeblock ''json'' (Content (Plain ''{'')) ?w)
    = ''a'' @ [nl, nl] @ [btick, btick, btick] @ ''json'' @ [nl] @ ''{'' @ [nl]
        @ [btick, btick, btick] @ [nl, nl]"
    by code_simp
  show ?thesis
    using c1 e1 c2 c3 e3 by simp
qed

section \<open>Nested list items\<close>

lemma splitLines_nonempty: "splitLines s \<noteq> []"
  by (induction s) simp_all

lemma splitLines_no_newline: "l \<in> set (splitLines s) \<Longrightarrow> nl \<notin> set l"
proof (induction s arbitrary: l)
  case Nil
  then show ?case by simp
next
  case (Cons c cs)
  obtain h t where ht: "splitLines cs = h # t"
    using splitLines_nonempty [of cs] by (cases "splitLines cs") auto
  show ?case
  proof (cases "c = nl")
    case True
    with Cons show ?thesis by auto
  next
    case False
    with Cons.prems ht have "l = c # h \<or> l \<in> set t" by simp
    then show ?thesis
    proof
      assume "l = c # h"
      moreover have "nl \<notin> set h" using Cons.IH [of h] ht by simp
      ultimately show ?thesis using False by simp
    next
      assume "l \<in> set t"
      then show ?thesis using Cons.IH [of l] ht by simp
    qed
  qed
qed

lemma splitLines_append_line:
  "nl \<notin> set l \<Longrightarrow> splitLines (l @ nl # s) = l # splitLines s"
  by (induction l) auto

lemma splitLines_single: "nl \<notin> set l \<Longrightarrow> splitLines l = [l]"
  by (induction l) auto

lemma splitLines_join:
  "ls \<noteq> [] \<Longrightarrow> \<forall>l \<in> set ls. nl \<notin> set l \<Longrightarrow> splitLines (join [nl] ls) = ls"
proof (induction ls)
  case Nil
  then show ?case by simp
next
  case (Cons x xs)
  show ?case
  proof (cases xs)
    case Nil
    with Cons.prems show ?thesis by (simp add: splitLines_single)
  next
    case (Cons y ys)
    with Cons.prems Cons.IH show ?thesis by (simp add: splitLines_append_line)
  qed
qed

lemma nestedItem_lines:
  "splitLines (nestedItem wr) = map (\<lambda>line. ''  '' @ line) (splitLines (trimEnd (toString wr)))"
  unfolding nestedItem_def indentLines_def
  by (rule splitLines_join) (auto simp: splitLines_nonempty dest: splitLines_no_newline)

lemma orderedItems_append:
  "orderedItems safe k (xs @ ys)
     = orderedItems safe k xs @ orderedItems safe (k + scalarCount xs) ys"
  by (induction safe k xs rule: orderedItems.induct) (simp_all add: scalarCount_def)

lemma orderedBuilderItems_append:
  "orderedBuilderItems k (xs @ ys)
     = orderedBuilderItems k xs @ orderedBuilderItems (k + textCount xs) ys"
  by (induction k xs rule: orderedBuilderItems.induct) (simp_all add: textCount_def)

lemma readNat_showNat: "readNat (showNat n) = n"
proof (induction n rule: showNat.induct)
  case (1 n)
  have d: "d < 10 \<Longrightarrow> (of_char (digitChar d) :: nat) - 48 = d" for d
    by (simp add: digitChar_def)
  show ?case
  proof (cases "n < 10")
    case True
    then show ?thesis by (simp add: showNat.simps [of n] readNat_def d)
  next
    case False
    with 1 have "readNat (showNat (n div 10)) = n div 10" by simp
    with False show ?thesis
      by (simp add: showNat.simps [of n] readNat_def d)
  qed
qed

lemma isSpace_nl: "isSpace nl"
  by (simp add: isSpace_def)

lemma trimEnd_idem: "trimEnd (trimEnd s @ [nl]) = trimEnd s"
proof -
  have "dropWhile isSpace (dropWhile isSpace xs) = dropWhile isSpace xs" for xs
    by (induction xs) simp_all
  then show ?thesis
    by (simp add: trimEnd_def isSpace_nl)
qed

lemma trimEnd_empty: "trimEnd [] = []"
  by (simp add: trimEnd_def)

lemma child_write_nested:
  "trimEnd (toString (write_content [Nested wr] (createChildWriter this)))
     = trimEnd (toString wr)"
proof (cases "trimEnd (toString wr) = []")
  case True
  then show ?thesis
    by (simp add: write_content_def writeJoined_def escapeUntrusted_def createChildWriter_def
        newWriter_def toString_def [of "\<lparr>parts = [], skipNextPadding = False, safeMode = safeMode this\<rparr>"]
        trimEnd_empty)
next
  case False
  then show ?thesis
    by (simp add: write_content_def writeJoined_def escapeUntrusted_def createChildWriter_def
        newWriter_def toString_pushPadded padding_def trimEnd_idem
        toString_def [of "\<lparr>parts = [], skipNextPadding = False, safeMode = safeMode this\<rparr>"])
qed

lemma builderItem_writer_iff:
  "(\<exists>wr. builderItem this c = ItemWriter wr)
     \<longleftrightarrow> ((\<exists>args. c = UnorderedListCall args \<or> c = ListCall args \<or> c = OrderedListCall args)
          \<or> (\<exists>content. c = CommentCall content))"
  by (cases c) simp_all

text \<open>
  C8, as amended. In the flat form of \<open>unorderedList\<close> and \<open>orderedList\<close> an item that is
  a nested writer, and in the builder form of \<open>unorderedList\<close>, \<open>orderedList\<close> and \<open>tasks\<close> the
  writer that a nested \<open>list\<close>, \<open>unorderedList\<close>, \<open>orderedList\<close> or \<open>comment\<close> call adds (the
  only calls that add a writer), is rendered to its full text, right-trimmed, and each of
  its lines is indented by exactly two spaces, whatever the nesting inside it. A writer
  passed as content to \<open>item\<close>, \<open>task\<close>, \<open>todo\<close> or \<open>done\<close> of a builder, or as an item or the
  value of a pair in the flat form of \<open>tasks\<close>, is the text of that item: its right-trimmed
  text after the marker, not indented.
\<close>

theorem nested_item_indented:
  "splitLines (nestedItem wr)
     = map (\<lambda>line. ''  '' @ line) (splitLines (trimEnd (toString wr)))
   \<and> unorderedListBody this (Items (xs @ Nested wr # ys))
     = join [nl] (map (unorderedItem (safeMode this)) xs @ nestedItem wr
         # map (unorderedItem (safeMode this)) ys) @ [nl, nl]
   \<and> orderedListBody this (Items (xs @ Nested wr # ys))
     = join [nl] (orderedItems (safeMode this) 1 xs @ nestedItem wr
         # orderedItems (safeMode this) (1 + scalarCount xs) ys) @ [nl, nl]
   \<and> builderItem this (UnorderedListCall args)
     = ItemWriter (unorderedList args (createChildWriter this))
   \<and> builderItem this (ListCall args) = ItemWriter (list_block args (createChildWriter this))
   \<and> builderItem this (OrderedListCall args)
     = ItemWriter (orderedList args (createChildWriter this))
   \<and> builderItem this (CommentCall text) = ItemWriter (comment text (createChildWriter this))
   \<and> ((\<exists>sub. builderItem this c = ItemWriter sub)
        \<longleftrightarrow> ((\<exists>a. c = UnorderedListCall a \<or> c = ListCall a \<or> c = OrderedListCall a)
             \<or> (\<exists>t. c = CommentCall t)))
   \<and> (builderItem this c = ItemWriter wr \<longrightarrow>
        unorderedListBody this (Builder (cs @ c # ds))
          = join [nl] (map unorderedBuilderItem (map (builderItem this) cs) @ nestedItem wr
              # map unorderedBuilderItem (map (builderItem this) ds)) @ [nl, nl]
      \<and> tasksBody this (TaskBuilder (cs @ c # ds))
          = join [nl] (map unorderedBuilderItem (map (builderItem this) cs) @ nestedItem wr
              # map unorderedBuilderItem (map (builderItem this) ds)) @ [nl, nl]
      \<and> orderedListBody this (Builder (cs @ c # ds))
          = join [nl] (orderedBuilderItems 1 (map (builderItem this) cs) @ nestedItem wr
              # orderedBuilderItems (1 + textCount (map (builderItem this) cs))
                  (map (builderItem this) ds)) @ [nl, nl])
   \<and> builderItem this (ItemCall [Nested wr]) = ItemText (trimEnd (toString wr))
   \<and> builderItem this (TaskCall checked [Nested wr])
     = ItemText ((if checked then ''[x] '' else ''[ ] '') @ trimEnd (toString wr))
   \<and> builderItem this (TodoCall [Nested wr]) = ItemText (''[ ] '' @ trimEnd (toString wr))
   \<and> builderItem this (DoneCall [Nested wr]) = ItemText (''[x] '' @ trimEnd (toString wr))
   \<and> unorderedListBody this (Builder (cs @ ItemCall [Nested wr] # ds))
     = join [nl] (map unorderedBuilderItem (map (builderItem this) cs)
         @ (''- '' @ trimEnd (toString wr))
         # map unorderedBuilderItem (map (builderItem this) ds)) @ [nl, nl]
   \<and> tasksBody this (TaskItems (ts @ TaskValue (Nested wr) # us))
     = join [nl] (map (\<lambda>item. ''- '' @ item) (map (taskItem this) ts)
         @ (''- [ ] '' @ trimEnd (toString wr))
         # map (\<lambda>item. ''- '' @ item) (map (taskItem this) us)) @ [nl, nl]
   \<and> tasksBody this (TaskItems (ts @ TaskPair (Nested wr) checked # us))
     = join [nl] (map (\<lambda>item. ''- '' @ item) (map (taskItem this) ts)
         @ (''- '' @ (if checked then ''[x] '' else ''[ ] '') @ trimEnd (toString wr))
         # map (\<lambda>item. ''- '' @ item) (map (taskItem this) us)) @ [nl, nl]"
proof -
  have dash: "(@) ''- '' = (\<lambda>item. CHR ''-'' # CHR '' '' # item)"
    by (simp add: fun_eq_iff)
  have w: "(\<exists>sub. builderItem this c = ItemWriter sub)
        \<longleftrightarrow> ((\<exists>a. c = UnorderedListCall a \<or> c = ListCall a \<or> c = OrderedListCall a)
             \<or> (\<exists>t. c = CommentCall t))"
    by (rule builderItem_writer_iff)
  show ?thesis
    unfolding w
    by (simp add: nestedItem_lines orderedItems_append orderedBuilderItems_append
        child_write_nested dash unorderedList_def list_block_def orderedList_def)
qed

theorem nested_item_indented_witness:
  "builderItem (newWriter None False) (UnorderedListCall (Items [Plain ''y'']))
     = ItemWriter (unorderedList (Items [Plain ''y'']) (newWriter None False))
   \<and> unorderedListBody (newWriter None False)
        (Builder ([ItemCall [Plain ''x'']] @ UnorderedListCall (Items [Plain ''y'']) # []))
     = ''- x'' @ [nl] @ ''  - y'' @ [nl, nl]"
proof -
  let ?w = "newWriter None False"
  let ?c = "UnorderedListCall (Items [Plain ''y''])"
  let ?s = "pushPadded (unorderedListBody (createChildWriter ?w) (Items [Plain ''y'']))
      (createChildWriter ?w)"
  have h: "builderItem ?w ?c = ItemWriter ?s"
    by simp
  note t = nested_item_indented [of ?s ?w "[]" "[]" "Items []" "[]" ?c
      "[ItemCall [Plain ''x'']]" "[]" False "[]" "[]"]
  have c: "unorderedListBody ?w (Builder ([ItemCall [Plain ''x'']] @ ?c # []))
      = join [nl] (map unorderedBuilderItem (map (builderItem ?w) [ItemCall [Plain ''x'']])
          @ nestedItem ?s # map unorderedBuilderItem (map (builderItem ?w) [])) @ [nl, nl]"
    using t h by blast
  have e1: "join [nl] (map unorderedBuilderItem (map (builderItem ?w) [ItemCall [Plain ''x'']])
          @ nestedItem ?s # map unorderedBuilderItem (map (builderItem ?w) [])) @ [nl, nl]
      = ''- x'' @ [nl] @ ''  - y'' @ [nl, nl]"
    by code_simp
  have e2: "builderItem ?w ?c = ItemWriter (unorderedList (Items [Plain ''y'']) ?w)"
    by code_simp
  show ?thesis
    using c e1 e2 by simp
qed

text \<open>
  C8 as stated fails where a writer is the content of an item: in the flat form of
  \<open>tasks\<close>, and in \<open>item\<close> of a builder, the writer holding the paragraphs \<open>a\<close> and \<open>b\<close>
  becomes one item whose later lines are not indented.
\<close>

theorem tasks_nested_not_indented_counterexample:
  "tasksBody (newWriter None False)
      (TaskItems [TaskValue (Nested
         (write_content [Plain ''b''] (write_content [Plain ''a''] (newWriter None False))))])
     = ''- [ ] a'' @ [nl, nl] @ ''b'' @ [nl, nl]
   \<and> unorderedListBody (newWriter None False)
      (Builder [ItemCall [Nested
         (write_content [Plain ''b''] (write_content [Plain ''a''] (newWriter None False)))]])
     = ''- a'' @ [nl, nl] @ ''b'' @ [nl, nl]
   \<and> nestedItem (write_content [Plain ''b''] (write_content [Plain ''a''] (newWriter None False)))
     = ''  a'' @ [nl] @ ''  '' @ [nl] @ ''  b''"
  by code_simp

section \<open>Numbering of ordered lists\<close>

text \<open>
  C9. \<open>orderedList('x', 'y')\<close> renders \<open>1. x\<close>, \<open>2. y\<close> and a blank line. In one call the
  scalar items are numbered from 1 in render order: a scalar item carries the decimal
  numeral of one plus the number of scalar items before it, in the flat form and in the
  builder form, and a nested writer does not advance the counter. A nested ordered list of a
  builder is rendered by its own \<open>orderedList\<close> call on a fresh child writer, so it numbers
  from 1 again, and the finished block is what gets indented.
\<close>

theorem ordered_numbering:
  "toString (orderedList (Items [Plain ''x'', Plain ''y''])
       (write_content [Plain []] (newWriter None False)))
     = ''1. x'' @ [nl] @ ''2. y'' @ [nl, nl]
   \<and> (isScalar c \<longrightarrow>
        orderedListBody this (Items (xs @ c # ys))
          = join [nl] (orderedItems (safeMode this) 1 xs
              @ (showNat (1 + scalarCount xs) @ ''. ''
                   @ escapeUntrusted (safeMode this) (toContentString c TrimNone))
              # orderedItems (safeMode this) (2 + scalarCount xs) ys) @ [nl, nl])
   \<and> orderedListBody this (Builder cs)
          = join [nl] (orderedBuilderItems 1 (map (builderItem this) cs)) @ [nl, nl]
   \<and> orderedBuilderItems 1 (is @ ItemText t # js)
          = orderedBuilderItems 1 is @ (showNat (1 + textCount is) @ ''. '' @ t)
              # orderedBuilderItems (2 + textCount is) js
   \<and> readNat (showNat n) = n
   \<and> scalarCount (map Plain ss) = length ss
   \<and> builderItem this (OrderedListCall args)
        = ItemWriter (orderedList args (createChildWriter this))
   \<and> orderedList args (createChildWriter this)
        = \<lparr>parts = [orderedListBody (createChildWriter this) args], skipNextPadding = False,
           safeMode = safeMode this\<rparr>"
proof -
  have a: "toString (orderedList (Items [Plain ''x'', Plain ''y''])
       (write_content [Plain []] (newWriter None False)))
     = ''1. x'' @ [nl] @ ''2. y'' @ [nl, nl]"
    by code_simp
  have b: "isScalar c \<Longrightarrow> orderedItems safe k (c # ys)
      = (showNat k @ ''. '' @ escapeUntrusted safe (toContentString c TrimNone))
          # orderedItems safe (Suc k) ys" for safe k
    by (cases c) simp_all
  have f: "scalarCount (map Plain ss) = length ss"
    by (simp add: scalarCount_def)
  have g: "orderedList args (createChildWriter this)
        = \<lparr>parts = [orderedListBody (createChildWriter this) args], skipNextPadding = False,
           safeMode = safeMode this\<rparr>"
    by (simp add: orderedList_def pushPadded_def padding_def createChildWriter_def newWriter_def)
  show ?thesis
    using a f g
    by (simp add: orderedItems_append orderedBuilderItems_append b readNat_showNat
        orderedList_def)
qed

theorem ordered_numbering_witness:
  "isScalar (Plain ''c'')
   \<and> orderedListBody (newWriter None False)
        (Items ([Plain ''a'', Nested (orderedList (Items [Plain ''x'', Plain ''y''])
             (newWriter None False)), Plain ''b''] @ Plain ''c'' # []))
     = ''1. a'' @ [nl] @ ''  1. x'' @ [nl] @ ''  2. y'' @ [nl] @ ''2. b'' @ [nl] @ ''3. c''
         @ [nl, nl]
   \<and> orderedListBody (newWriter None False)
        (Builder [ItemCall [Plain ''a''], OrderedListCall (Items [Plain ''x'', Plain ''y'']),
           ItemCall [Plain ''b'']])
     = ''1. a'' @ [nl] @ ''  1. x'' @ [nl] @ ''  2. y'' @ [nl] @ ''2. b'' @ [nl, nl]"
proof -
  let ?w = "newWriter None False"
  let ?xs = "[Plain ''a'', Nested (orderedList (Items [Plain ''x'', Plain ''y'']) ?w), Plain ''b'']"
  have h: "isScalar (Plain ''c'')"
    by simp
  have c: "orderedListBody ?w (Items (?xs @ Plain ''c'' # []))
      = join [nl] (orderedItems (safeMode ?w) 1 ?xs
          @ (showNat (1 + scalarCount ?xs) @ ''. ''
               @ escapeUntrusted (safeMode ?w) (toContentString (Plain ''c'') TrimNone))
          # orderedItems (safeMode ?w) (2 + scalarCount ?xs) []) @ [nl, nl]"
    using ordered_numbering [of "Plain ''c''" ?w ?xs "[]"] h by blast
  have e1: "join [nl] (orderedItems (safeMode ?w) 1 ?xs
          @ (showNat (1 + scalarCount ?xs) @ ''. ''
               @ escapeUntrusted (safeMode ?w) (toContentString (Plain ''c'') TrimNone))
          # orderedItems (safeMode ?w) (2 + scalarCount ?xs) []) @ [nl, nl]
      = ''1. a'' @ [nl] @ ''  1. x'' @ [nl] @ ''  2. y'' @ [nl] @ ''2. b'' @ [nl] @ ''3. c''
         @ [nl, nl]"
    by code_simp
  have e2: "orderedListBody ?w
        (Builder [ItemCall [Plain ''a''], OrderedListCall (Items [Plain ''x'', Plain ''y'']),
           ItemCall [Plain ''b'']])
     = ''1. a'' @ [nl] @ ''  1. x'' @ [nl] @ ''  2. y'' @ [nl] @ ''2. b'' @ [nl, nl]"
    by code_simp
  show ?thesis
    using h c e1 e2 by simp
qed

section \<open>Sanitized link destinations\<close>














section \<open>Escaping keeps the ends of a text\<close>

lemma join_Cons: "join sep (x # xs) = (if xs = [] then x else x @ sep @ join sep xs)"
  by (cases xs) simp_all

lemma join_snoc: "join sep (xs @ [x]) = (if xs = [] then x else join sep xs @ sep @ x)"
proof (induction xs)
  case Nil
  show ?case by simp
next
  case (Cons y ys)
  then show ?case by (cases ys) simp_all
qed
















section \<open>What each appender pushes\<close>




lemma join_hd:
  assumes "xs \<noteq> []" "hd xs \<noteq> []"
  shows "join sep xs \<noteq> [] \<and> hd (join sep xs) = hd (hd xs)"
  using assms by (cases xs) (auto simp: join_Cons)

lemma join_last:
  assumes "xs \<noteq> []" "last xs \<noteq> []"
  shows "join sep xs \<noteq> [] \<and> last (join sep xs) = last (last xs)"
  using assms by (cases xs rule: rev_cases) (auto simp: join_snoc)







lemma join_lines_shape:
  assumes "xs \<noteq> []" "hd xs \<noteq> []" "hd (hd xs) \<noteq> nl" "last xs \<noteq> []" "last (last xs) \<noteq> nl"
  shows "join sep xs \<noteq> [] \<and> hd (join sep xs) \<noteq> nl \<and> last (join sep xs) \<noteq> nl"
  using join_hd [OF assms(1,2), of sep] join_last [OF assms(1,4), of sep] assms(3,5)
  by simp











section \<open>Trailing newlines\<close>

















section \<open>The text of each block\<close>

lemma marker_start:
  assumes "m \<noteq> []" "hd m \<noteq> nl"
  shows "startsWithContent (m @ t)"
  using assms unfolding startsWithContent_def by simp












































section \<open>The paragraph break between two blocks\<close>












end
